theory Spec2Isabelle
  imports Complex_Main "HOL-Library.Product_Lexorder" "HOL-Library.Multiset"
begin

section \<open>Data model (src/types.ts)\<close>

text \<open>
  A shallow embedding of the layout resolution engine of \<^verbatim>\<open>src/utils/layoutUtils.ts\<close>.
  A JavaScript \<^verbatim>\<open>number\<close> that the engine receives is modelled as a \<^typ>\<open>real\<close>, and
  addition, subtraction, multiplication and division by a non-zero constant are those
  of the reals: the rounding of IEEE doubles is not modelled, so a statement about these
  operations is about the code only where every operation is exact in doubles. A division
  whose divisor can be 0 is modelled with its non-finite results (type \<open>number\<close> below).

  Record fields carry a prefix naming their interface (\<open>lv_\<close> for \<^verbatim>\<open>LayoutValue\<close>,
  \<open>lc_\<close> for \<^verbatim>\<open>LayoutConfig\<close>, \<open>rt_\<close> for the \<^verbatim>\<open>_runtime\<close> object, \<open>el_\<close> for
  \<^verbatim>\<open>LayoutElement\<close>, \<open>vp_\<close> for \<^verbatim>\<open>Viewport\<close>, \<open>rc_\<close> for the anonymous rectangle type
  \<^verbatim>\<open>{ x; y; width; height }\<close>), since the interfaces share the names x, y, width and height.
\<close>

datatype UnitType = PX | PERCENT_PARENT_W | PERCENT_PARENT_H | VW | VH

text \<open>The union \<^verbatim>\<open>AnchorX | AnchorY\<close>: the string \<^verbatim>\<open>'center'\<close> belongs to both.\<close>

datatype Anchor = Left | Center | Right | Top | Bottom

datatype Axis = AxisX | AxisY

datatype ShapeKind = ShapeRect | ShapeCircle

record LayoutValue =
  lv_value :: real
  lv_unit :: UnitType

text \<open>
  \<^verbatim>\<open>zIndex\<close>, \<^verbatim>\<open>anchorX\<close> and \<^verbatim>\<open>anchorY\<close> are read through \<^verbatim>\<open>|| 0\<close>, \<^verbatim>\<open>|| 'left'\<close> and
  \<^verbatim>\<open>|| 'top'\<close>, and \<^verbatim>\<open>isContainer\<close> is declared optional: an absent field is \<open>None\<close>.
\<close>

record LayoutConfig =
  lc_x :: LayoutValue
  lc_y :: LayoutValue
  lc_width :: LayoutValue
  lc_height :: LayoutValue
  lc_zIndex :: "real option"
  lc_anchorX :: "Anchor option"
  lc_anchorY :: "Anchor option"
  lc_isContainer :: "bool option"

record RuntimeRect =
  rt_x :: real
  rt_y :: real
  rt_width :: real
  rt_height :: real
  rt_parentId :: "string option"

text \<open>
  The element is parametric in its \<^verbatim>\<open>_runtime\<close>: the input and the final map hold a
  \<^verbatim>\<open>LayoutElement\<close> whose \<^verbatim>\<open>_runtime\<close> is optional (\<open>RuntimeRect option\<close>); the arrays
  \<^verbatim>\<open>estimatedElements\<close> and \<^verbatim>\<open>withParents\<close> hold objects built with a \<^verbatim>\<open>_runtime\<close>
  literal, so theirs is always present (\<open>RuntimeRect\<close>).
\<close>

record 'r LayoutElement =
  el_id :: string
  el_type :: ShapeKind
  el_name :: string
  el_layout :: LayoutConfig
  el_runtime :: 'r

record Viewport =
  vp_name :: string
  vp_width :: real
  vp_height :: real
  vp_icon :: string

record Rect =
  rc_x :: real
  rc_y :: real
  rc_width :: real
  rc_height :: real

text \<open>The object spread \<^verbatim>\<open>{ ...el, _runtime: r }\<close>.\<close>

definition with_runtime :: "'a LayoutElement \<Rightarrow> 'b \<Rightarrow> 'b LayoutElement" where
  "with_runtime el r =
     \<lparr>el_id = el_id el, el_type = el_type el, el_name = el_name el,
      el_layout = el_layout el, el_runtime = r\<rparr>"

section \<open>Unit resolver and anchor transform\<close>

definition resolveLength :: "LayoutValue \<Rightarrow> Viewport \<Rightarrow> Rect \<Rightarrow> real" where
  "resolveLength val viewport parentRect =
     (case lv_unit val of
        PX \<Rightarrow> lv_value val
      | PERCENT_PARENT_W \<Rightarrow> (lv_value val / 100) * rc_width parentRect
      | PERCENT_PARENT_H \<Rightarrow> (lv_value val / 100) * rc_height parentRect
      | VW \<Rightarrow> (lv_value val / 100) * vp_width viewport
      | VH \<Rightarrow> (lv_value val / 100) * vp_height viewport)"

text \<open>The reference rectangle chosen by \<^verbatim>\<open>isGlobal\<close> in both conversions.\<close>

definition refRectOf :: "UnitType \<Rightarrow> Viewport \<Rightarrow> Rect \<Rightarrow> Rect" where
  "refRectOf u viewport parentRect =
     (if u = VW \<or> u = VH
      then \<lparr>rc_x = 0, rc_y = 0, rc_width = vp_width viewport, rc_height = vp_height viewport\<rparr>
      else parentRect)"

definition convertOffsetToAbsolute ::
  "LayoutValue \<Rightarrow> Anchor \<Rightarrow> Axis \<Rightarrow> real \<Rightarrow> Viewport \<Rightarrow> Rect \<Rightarrow> real" where
  "convertOffsetToAbsolute val anchor axis elementSize viewport parentRect =
     (let length = resolveLength val viewport parentRect;
          refRect = refRectOf (lv_unit val) viewport parentRect
      in if axis = AxisX then
           (if anchor = Left then rc_x refRect + length
            else if anchor = Right then rc_x refRect + rc_width refRect - length - elementSize
            else if anchor = Center
              then rc_x refRect + (rc_width refRect / 2) + length - (elementSize / 2)
            else 0)
         else
           (if anchor = Top then rc_y refRect + length
            else if anchor = Bottom then rc_y refRect + rc_height refRect - length - elementSize
            else if anchor = Center
              then rc_y refRect + (rc_height refRect / 2) + length - (elementSize / 2)
            else 0))"

text \<open>
  The result of a division whose divisor may be 0. In JavaScript \<^verbatim>\<open>p / 0\<close> is no error
  and is not 0: it is \<^verbatim>\<open>Infinity\<close>, \<^verbatim>\<open>-Infinity\<close> or \<^verbatim>\<open>NaN\<close>. \<open>NonFinite\<close> stands
  for these three values; multiplied by a number they stay non-finite.
\<close>

datatype number = Finite real | NonFinite

definition divideNumber :: "real \<Rightarrow> real \<Rightarrow> number" where
  "divideNumber a b = (if b = 0 then NonFinite else Finite (a / b))"

definition timesNumber :: "number \<Rightarrow> real \<Rightarrow> number" where
  "timesNumber n c = (case n of Finite q \<Rightarrow> Finite (q * c) | NonFinite \<Rightarrow> NonFinite)"

definition convertAbsoluteToOffset ::
  "real \<Rightarrow> Anchor \<Rightarrow> Axis \<Rightarrow> real \<Rightarrow> UnitType \<Rightarrow> Viewport \<Rightarrow> Rect \<Rightarrow> number" where
  "convertAbsoluteToOffset absPos anchor axis elementSize targetUnit viewport parentRect =
     (let refRect = refRectOf targetUnit viewport parentRect;
          pixelOffset =
            (if axis = AxisX then
               (if anchor = Left then absPos - rc_x refRect
                else if anchor = Right
                  then rc_x refRect + rc_width refRect - absPos - elementSize
                else if anchor = Center
                  then (absPos + elementSize / 2) - (rc_x refRect + rc_width refRect / 2)
                else 0)
             else
               (if anchor = Top then absPos - rc_y refRect
                else if anchor = Bottom
                  then rc_y refRect + rc_height refRect - absPos - elementSize
                else if anchor = Center
                  then (absPos + elementSize / 2) - (rc_y refRect + rc_height refRect / 2)
                else 0))
      in case targetUnit of
           PX \<Rightarrow> Finite pixelOffset
         | PERCENT_PARENT_W \<Rightarrow>
             (if rc_width parentRect = 0 then Finite 0
              else timesNumber (divideNumber pixelOffset (rc_width parentRect)) 100)
         | PERCENT_PARENT_H \<Rightarrow>
             (if rc_height parentRect = 0 then Finite 0
              else timesNumber (divideNumber pixelOffset (rc_height parentRect)) 100)
         | VW \<Rightarrow>
             (if vp_width viewport = 0 then Finite 0
              else timesNumber (divideNumber pixelOffset (vp_width viewport)) 100)
         | VH \<Rightarrow>
             (if vp_height viewport = 0 then Finite 0
              else timesNumber (divideNumber pixelOffset (vp_height viewport)) 100))"

definition toPixels :: "LayoutValue \<Rightarrow> Viewport \<Rightarrow> Rect \<Rightarrow> real" where
  "toPixels val viewport parentRect = resolveLength val viewport parentRect"

definition fromPixels :: "real \<Rightarrow> UnitType \<Rightarrow> Viewport \<Rightarrow> Rect \<Rightarrow> number" where
  "fromPixels pixels targetUnit viewport parentRect =
     (case targetUnit of
        PX \<Rightarrow> Finite pixels
      | PERCENT_PARENT_W \<Rightarrow>
          (if rc_width parentRect = 0 then Finite 0
           else timesNumber (divideNumber pixels (rc_width parentRect)) 100)
      | PERCENT_PARENT_H \<Rightarrow>
          (if rc_height parentRect = 0 then Finite 0
           else timesNumber (divideNumber pixels (rc_height parentRect)) 100)
      | VW \<Rightarrow>
          (if vp_width viewport = 0 then Finite 0
           else timesNumber (divideNumber pixels (vp_width viewport)) 100)
      | VH \<Rightarrow>
          (if vp_height viewport = 0 then Finite 0
           else timesNumber (divideNumber pixels (vp_height viewport)) 100))"

section \<open>The three passes of calculateRuntimePositions\<close>

text \<open>The rectangle \<^verbatim>\<open>{ x: 0, y: 0, width: viewport.width, height: viewport.height }\<close>.\<close>

definition viewportRect :: "Viewport \<Rightarrow> Rect" where
  "viewportRect viewport =
     \<lparr>rc_x = 0, rc_y = 0, rc_width = vp_width viewport, rc_height = vp_height viewport\<rparr>"

definition anchorXOf :: "LayoutConfig \<Rightarrow> Anchor" where
  "anchorXOf l = (case lc_anchorX l of None \<Rightarrow> Left | Some a \<Rightarrow> a)"

definition anchorYOf :: "LayoutConfig \<Rightarrow> Anchor" where
  "anchorYOf l = (case lc_anchorY l of None \<Rightarrow> Top | Some a \<Rightarrow> a)"

text \<open>
  The geometry that Pass 1 and Pass 3 both compute from a \<^verbatim>\<open>LayoutConfig\<close> and a parent
  rectangle: width and height first, then x and y with the element's own size.
\<close>

definition placeIn :: "LayoutConfig \<Rightarrow> Viewport \<Rightarrow> Rect \<Rightarrow> string option \<Rightarrow> RuntimeRect" where
  "placeIn l viewport parentRect pid =
     (let width = toPixels (lc_width l) viewport parentRect;
          height = toPixels (lc_height l) viewport parentRect;
          x = convertOffsetToAbsolute (lc_x l) (anchorXOf l) AxisX width viewport parentRect;
          y = convertOffsetToAbsolute (lc_y l) (anchorYOf l) AxisY height viewport parentRect
      in \<lparr>rt_x = x, rt_y = y, rt_width = width, rt_height = height, rt_parentId = pid\<rparr>)"

text \<open>Pass 1: every element against the viewport, whatever \<^verbatim>\<open>_runtime\<close> it came with.\<close>

definition estimate :: "Viewport \<Rightarrow> 'r LayoutElement \<Rightarrow> RuntimeRect LayoutElement" where
  "estimate viewport el =
     with_runtime el (placeIn (el_layout el) viewport (viewportRect viewport) None)"

definition estimatedElements ::
  "'r LayoutElement list \<Rightarrow> Viewport \<Rightarrow> RuntimeRect LayoutElement list" where
  "estimatedElements elements viewport = map (estimate viewport) elements"

text \<open>Pass 2: the filter callback, the sort comparator and the sort.\<close>

definition isCandidate :: "RuntimeRect LayoutElement \<Rightarrow> RuntimeRect LayoutElement \<Rightarrow> bool" where
  "isCandidate child p =
     (let cx = rt_x (el_runtime child) + rt_width (el_runtime child) / 2;
          cy = rt_y (el_runtime child) + rt_height (el_runtime child) / 2
      in if el_id p = el_id child then False
         else if lc_isContainer (el_layout p) = Some False then False
         else (let pRect = el_runtime p
               in cx \<ge> rt_x pRect \<and> cx \<le> rt_x pRect + rt_width pRect \<and>
                  cy \<ge> rt_y pRect \<and> cy \<le> rt_y pRect + rt_height pRect))"

definition potentialParents ::
  "RuntimeRect LayoutElement list \<Rightarrow> RuntimeRect LayoutElement \<Rightarrow> RuntimeRect LayoutElement list"
  where
  "potentialParents estimated child = filter (isCandidate child) estimated"

definition zIndexOf :: "'r LayoutElement \<Rightarrow> real" where
  "zIndexOf a = (case lc_zIndex (el_layout a) of None \<Rightarrow> 0 | Some z \<Rightarrow> z)"

definition areaOf :: "RuntimeRect LayoutElement \<Rightarrow> real" where
  "areaOf a = rt_width (el_runtime a) * rt_height (el_runtime a)"

definition compareParents :: "RuntimeRect LayoutElement \<Rightarrow> RuntimeRect LayoutElement \<Rightarrow> real" where
  "compareParents a b =
     (let zDiff = zIndexOf b - zIndexOf a
      in if zDiff \<noteq> 0 then zDiff else areaOf a - areaOf b)"

text \<open>
  \<^verbatim>\<open>Array.prototype.sort\<close> with a comparator: the sort is stable (ECMAScript 2019), so
  it is modelled as an insertion sort where an element moves behind another only when
  the comparator is positive.
\<close>

fun insertBy :: "('a \<Rightarrow> 'a \<Rightarrow> real) \<Rightarrow> 'a \<Rightarrow> 'a list \<Rightarrow> 'a list" where
  "insertBy cmp a [] = [a]"
| "insertBy cmp a (b # bs) = (if cmp a b \<le> 0 then a # b # bs else b # insertBy cmp a bs)"

definition sortBy :: "('a \<Rightarrow> 'a \<Rightarrow> real) \<Rightarrow> 'a list \<Rightarrow> 'a list" where
  "sortBy cmp xs = foldr (insertBy cmp) xs []"

definition sortedParents ::
  "RuntimeRect LayoutElement list \<Rightarrow> RuntimeRect LayoutElement \<Rightarrow> RuntimeRect LayoutElement list"
  where
  "sortedParents estimated child = sortBy compareParents (potentialParents estimated child)"

definition assignParent ::
  "RuntimeRect LayoutElement list \<Rightarrow> RuntimeRect LayoutElement \<Rightarrow> RuntimeRect LayoutElement"
  where
  "assignParent estimated child =
     (case sortedParents estimated child of
        parent # _ \<Rightarrow>
          with_runtime child ((el_runtime child)\<lparr>rt_parentId := Some (el_id parent)\<rparr>)
      | [] \<Rightarrow> child)"

definition withParents :: "RuntimeRect LayoutElement list \<Rightarrow> RuntimeRect LayoutElement list" where
  "withParents estimated = map (assignParent estimated) estimated"

text \<open>
  Pass 3. \<^verbatim>\<open>finalMap\<close> is a mutable \<^verbatim>\<open>Map\<close>: it is passed in and returned.
  \<^verbatim>\<open>Array.prototype.find\<close> returns \<^verbatim>\<open>undefined\<close> when nothing matches; reading
  \<^verbatim>\<open>el._runtime\<close> of an undefined \<^verbatim>\<open>el\<close> throws a TypeError.
\<close>

datatype error = TypeError

type_synonym finalMap = "string \<rightharpoonup> RuntimeRect option LayoutElement"

definition findById :: "'r LayoutElement list \<Rightarrow> string \<Rightarrow> 'r LayoutElement option" where
  "findById els i = find (\<lambda>e. el_id e = i) els"

text \<open>An element of \<^verbatim>\<open>withParents\<close> seen at the type \<^verbatim>\<open>LayoutElement\<close>.\<close>

definition asLayoutElement :: "RuntimeRect LayoutElement \<Rightarrow> RuntimeRect option LayoutElement" where
  "asLayoutElement el = with_runtime el (Some (el_runtime el))"

text \<open>The truthiness test \<^verbatim>\<open>if (el._runtime?.parentId)\<close>: null and the empty string fail it.\<close>

definition truthyParentId :: "string option \<Rightarrow> string option" where
  "truthyParentId p = (case p of None \<Rightarrow> None | Some s \<Rightarrow> if s = [] then None else Some s)"

text \<open>
  \<^verbatim>\<open>if (parentEl && parentEl._runtime) parentRect = { ... }\<close>, with the viewport rectangle
  as the value \<^verbatim>\<open>parentRect\<close> had before.
\<close>

definition parentRectOf :: "Viewport \<Rightarrow> RuntimeRect option LayoutElement option \<Rightarrow> Rect" where
  "parentRectOf viewport parentEl =
     (case parentEl of
        None \<Rightarrow> viewportRect viewport
      | Some p \<Rightarrow>
          (case el_runtime p of
             None \<Rightarrow> viewportRect viewport
           | Some r \<Rightarrow>
               \<lparr>rc_x = rt_x r, rc_y = rt_y r, rc_width = rt_width r, rc_height = rt_height r\<rparr>))"

definition finalize ::
  "RuntimeRect LayoutElement \<Rightarrow> Viewport \<Rightarrow> Rect \<Rightarrow> RuntimeRect option LayoutElement" where
  "finalize el viewport parentRect =
     with_runtime el
       (Some (placeIn (el_layout el) viewport parentRect (rt_parentId (el_runtime el))))"

function (domintros) calculateElement ::
  "RuntimeRect LayoutElement list \<Rightarrow> Viewport \<Rightarrow> finalMap \<Rightarrow> string \<Rightarrow> string list \<Rightarrow>
     error + (RuntimeRect option LayoutElement option \<times> finalMap)" where
  "calculateElement wp viewport fm i stack =
     (case fm i of
        Some cached \<Rightarrow> Inr (Some cached, fm)
      | None \<Rightarrow>
          if i \<in> set stack then Inr (map_option asLayoutElement (findById wp i), fm)
          else
            (case findById wp i of
               None \<Rightarrow> Inl TypeError
             | Some el \<Rightarrow>
                 (case truthyParentId (rt_parentId (el_runtime el)) of
                    None \<Rightarrow>
                      (let res = finalize el viewport (viewportRect viewport)
                       in Inr (Some res, fm(i \<mapsto> res)))
                  | Some pid \<Rightarrow>
                      (case calculateElement wp viewport fm pid (stack @ [i]) of
                         Inl e \<Rightarrow> Inl e
                       | Inr (parentEl, fm') \<Rightarrow>
                           (let res = finalize el viewport (parentRectOf viewport parentEl)
                            in Inr (Some res, fm'(i \<mapsto> res)))))))"
  by pat_completeness auto

termination
proof (relation "measure (\<lambda>(wp, viewport, fm, i, stack). card (el_id ` set wp - set stack))")
  show "wf (measure (\<lambda>(wp, viewport, fm, i, stack). card (el_id ` set wp - set stack)))"
    by simp
next
  fix wp :: "RuntimeRect LayoutElement list" and viewport :: Viewport and fm :: finalMap
    and i :: string and stack :: "string list" and el pid
  assume notin: "i \<notin> set stack" and found: "findById wp i = Some el"
  from found have "i \<in> el_id ` set wp"
    unfolding findById_def by (auto simp: find_Some_iff)
  with notin have "el_id ` set wp - set (stack @ [i]) \<subset> el_id ` set wp - set stack"
    by auto
  then have "card (el_id ` set wp - set (stack @ [i])) < card (el_id ` set wp - set stack)"
    by (intro psubset_card_mono) auto
  then show "((wp, viewport, fm, pid, stack @ [i]), (wp, viewport, fm, i, stack))
      \<in> measure (\<lambda>(wp, viewport, fm, i, stack). card (el_id ` set wp - set stack))"
    by simp
qed

declare calculateElement.simps [simp del]

text \<open>\<^verbatim>\<open>withParents.forEach(el => calculateElement(el.id))\<close>, stopping at a thrown error.\<close>

fun calculateAll ::
  "RuntimeRect LayoutElement list \<Rightarrow> Viewport \<Rightarrow> RuntimeRect LayoutElement list \<Rightarrow> finalMap \<Rightarrow>
     error + finalMap" where
  "calculateAll wp viewport [] fm = Inr fm"
| "calculateAll wp viewport (el # rest) fm =
     (case calculateElement wp viewport fm (el_id el) [] of
        Inl e \<Rightarrow> Inl e
      | Inr (_, fm') \<Rightarrow> calculateAll wp viewport rest fm')"

text \<open>
  The whole function. \<^verbatim>\<open>finalMap.get(el.id)!\<close> is \<^verbatim>\<open>undefined\<close> for a missing key, so
  the returned array is a list of optional elements.
\<close>

definition calculateRuntimePositions ::
  "'r LayoutElement list \<Rightarrow> Viewport \<Rightarrow> error + RuntimeRect option LayoutElement option list"
  where
  "calculateRuntimePositions elements viewport =
     (let wp = withParents (estimatedElements elements viewport)
      in case calculateAll wp viewport wp Map.empty of
           Inl e \<Rightarrow> Inl e
         | Inr finalMap \<Rightarrow> Inr (map (\<lambda>el. finalMap (el_id el)) elements))"

section \<open>Auxiliary notions for the proofs\<close>

text \<open>
  A resolved element agrees with an element of \<^verbatim>\<open>withParents\<close> when it has its id,
  kind, name and layout, carries a \<^verbatim>\<open>_runtime\<close>, and keeps its parent id.
\<close>

definition agrees :: "RuntimeRect option LayoutElement \<Rightarrow> RuntimeRect LayoutElement \<Rightarrow> bool" where
  "agrees r el =
     (el_id r = el_id el \<and> el_type r = el_type el \<and> el_name r = el_name el \<and>
      el_layout r = el_layout el \<and>
      (case el_runtime r of
         None \<Rightarrow> False
       | Some rr \<Rightarrow> rt_parentId rr = rt_parentId (el_runtime el)))"

text \<open>The invariant of \<^verbatim>\<open>finalMap\<close>: every entry agrees with the first element of its id.\<close>

definition okMap :: "RuntimeRect LayoutElement list \<Rightarrow> finalMap \<Rightarrow> bool" where
  "okMap wp fm = (\<forall>i r. fm i = Some r \<longrightarrow> (\<exists>el. findById wp i = Some el \<and> agrees r el))"

text \<open>Every parent id that occurs is the id of an element of the list.\<close>

definition closedParents :: "RuntimeRect LayoutElement list \<Rightarrow> bool" where
  "closedParents wp =
     (\<forall>e \<in> set wp. \<forall>p. rt_parentId (el_runtime e) = Some p \<longrightarrow> p \<in> el_id ` set wp)"

text \<open>The sort key that the comparator realises: z-order descending, then area ascending.\<close>

definition parentKey :: "RuntimeRect LayoutElement \<Rightarrow> real \<times> real" where
  "parentKey p = (- zIndexOf p, areaOf p)"

text \<open>
  The part of an element that the resolved geometry depends on: its id and its layout.
  \<open>anonymise\<close> forgets kind and name, \<open>core\<close> forgets the \<^verbatim>\<open>_runtime\<close> too.
\<close>

definition anonymise :: "'r LayoutElement \<Rightarrow> 'r LayoutElement" where
  "anonymise e = e\<lparr>el_type := ShapeRect, el_name := []\<rparr>"

definition core :: "'r LayoutElement \<Rightarrow> unit LayoutElement" where
  "core e =
     \<lparr>el_id = el_id e, el_type = ShapeRect, el_name = [], el_layout = el_layout e,
      el_runtime = ()\<rparr>"

definition anonMap :: "finalMap \<Rightarrow> finalMap" where
  "anonMap fm = (\<lambda>i. map_option anonymise (fm i))"

definition anonResult ::
  "error + (RuntimeRect option LayoutElement option \<times> finalMap) \<Rightarrow>
   error + (RuntimeRect option LayoutElement option \<times> finalMap)" where
  "anonResult res =
     (case res of
        Inl e \<Rightarrow> Inl e
      | Inr (r, fm) \<Rightarrow> Inr (map_option anonymise r, anonMap fm))"




section \<open>Concrete inputs\<close>

text \<open>Scenario A of the specification: a 1280 by 800 viewport, a container and a child.\<close>

definition vpA :: Viewport where
  "vpA = \<lparr>vp_name = ''Desktop'', vp_width = 1280, vp_height = 800, vp_icon = ''monitor''\<rparr>"

definition elC :: "RuntimeRect option LayoutElement" where
  "elC =
     \<lparr>el_id = ''C'', el_type = ShapeRect, el_name = ''Container'',
      el_layout =
        \<lparr>lc_x = \<lparr>lv_value = 0, lv_unit = PX\<rparr>, lc_y = \<lparr>lv_value = 0, lv_unit = PX\<rparr>,
         lc_width = \<lparr>lv_value = 50, lv_unit = PERCENT_PARENT_W\<rparr>,
         lc_height = \<lparr>lv_value = 50, lv_unit = PERCENT_PARENT_H\<rparr>,
         lc_zIndex = Some 1, lc_anchorX = Some Left, lc_anchorY = Some Top,
         lc_isContainer = Some True\<rparr>,
      el_runtime = None\<rparr>"

definition elD :: "RuntimeRect option LayoutElement" where
  "elD =
     \<lparr>el_id = ''D'', el_type = ShapeRect, el_name = ''Child'',
      el_layout =
        \<lparr>lc_x = \<lparr>lv_value = 10, lv_unit = PX\<rparr>, lc_y = \<lparr>lv_value = 10, lv_unit = PX\<rparr>,
         lc_width = \<lparr>lv_value = 50, lv_unit = PX\<rparr>,
         lc_height = \<lparr>lv_value = 50, lv_unit = PX\<rparr>,
         lc_zIndex = Some 2, lc_anchorX = Some Left, lc_anchorY = Some Top,
         lc_isContainer = None\<rparr>,
      el_runtime = None\<rparr>"

text \<open>
  A parent of width 300 (Scenario C), a parent at the origin, a rectangle of size zero and
  a viewport of size zero.
\<close>

definition parent300 :: Rect where
  "parent300 = \<lparr>rc_x = 20, rc_y = 40, rc_width = 300, rc_height = 200\<rparr>"


definition zeroRect :: Rect where
  "zeroRect = \<lparr>rc_x = 0, rc_y = 0, rc_width = 0, rc_height = 0\<rparr>"

definition zeroViewport :: Viewport where
  "zeroViewport = \<lparr>vp_name = ''Empty'', vp_width = 0, vp_height = 0, vp_icon = ''none''\<rparr>"

text \<open>An element placed and sized in pixels, anchored left and top.\<close>

definition pxElement ::
  "string \<Rightarrow> real \<Rightarrow> real \<Rightarrow> real \<Rightarrow> real \<Rightarrow> real option \<Rightarrow> bool option \<Rightarrow>
     RuntimeRect option LayoutElement" where
  "pxElement i x y w h z c =
     \<lparr>el_id = i, el_type = ShapeRect, el_name = i,
      el_layout =
        \<lparr>lc_x = \<lparr>lv_value = x, lv_unit = PX\<rparr>, lc_y = \<lparr>lv_value = y, lv_unit = PX\<rparr>,
         lc_width = \<lparr>lv_value = w, lv_unit = PX\<rparr>,
         lc_height = \<lparr>lv_value = h, lv_unit = PX\<rparr>,
         lc_zIndex = z, lc_anchorX = Some Left, lc_anchorY = Some Top,
         lc_isContainer = c\<rparr>,
      el_runtime = None\<rparr>"

text \<open>
  The tie-break scenario: a 500 by 500 and a 300 by 300 container of equal z-order (one
  given as 0, one absent) that overlap, and a child whose center (325, 325) is in both.
\<close>

definition elBig :: "RuntimeRect option LayoutElement" where
  "elBig = pxElement ''big'' 0 0 500 500 (Some 0) (Some True)"

definition elSmall :: "RuntimeRect option LayoutElement" where
  "elSmall = pxElement ''small'' 260 260 300 300 None None"

definition elKid :: "RuntimeRect option LayoutElement" where
  "elKid = pxElement ''kid'' 300 300 50 50 (Some 1) (Some False)"

text \<open>Two containers, each holding the center of the other: their parent ids form a cycle.\<close>

definition elP :: "RuntimeRect option LayoutElement" where
  "elP = pxElement ''P'' 0 0 100 100 (Some 0) None"

definition elQ :: "RuntimeRect option LayoutElement" where
  "elQ = pxElement ''Q'' 10 10 100 100 (Some 0) None"

text \<open>A panel that encloses a dot but has \<^verbatim>\<open>isContainer: false\<close>.\<close>

definition elPanel :: "RuntimeRect option LayoutElement" where
  "elPanel = pxElement ''panel'' 0 0 400 400 (Some 5) (Some False)"

definition elDot :: "RuntimeRect option LayoutElement" where
  "elDot = pxElement ''dot'' 100 100 20 20 (Some 1) None"

text \<open>The output of Scenario A.\<close>

definition outsA :: "RuntimeRect option LayoutElement list" where
  "outsA =
     [with_runtime elC
        (Some \<lparr>rt_x = 0, rt_y = 0, rt_width = 640, rt_height = 400, rt_parentId = None\<rparr>),
      with_runtime elD
        (Some \<lparr>rt_x = 10, rt_y = 10, rt_width = 50, rt_height = 50,
               rt_parentId = Some ''C''\<rparr>)]"

section \<open>Anchor transform: formulas, zero references and the round trip\<close>

lemmas conversion_defs =
  convertOffsetToAbsolute_def convertAbsoluteToOffset_def resolveLength_def refRectOf_def
  fromPixels_def divideNumber_def timesNumber_def Let_def

text \<open>
  Claim C2. \<^verbatim>\<open>convertOffsetToAbsolute\<close> resolves the pixel length \<open>L\<close> and returns, on
  each axis, \<open>R.origin + L\<close> for the start anchor (left on x, top on y),
  \<open>R.origin + R.size - L - S\<close> for the end anchor (right, bottom) and
  \<open>R.origin + R.size / 2 + L - S / 2\<close> for the center anchor, where \<open>R\<close> is the viewport
  at the origin when the unit is vw or vh and the parent rectangle otherwise.
\<close>

theorem convertOffsetToAbsolute_formula:
  "(let L = resolveLength val viewport parentRect;
        R = (if lv_unit val = VW \<or> lv_unit val = VH
             then \<lparr>rc_x = 0, rc_y = 0, rc_width = vp_width viewport,
                   rc_height = vp_height viewport\<rparr>
             else parentRect)
    in convertOffsetToAbsolute val Left AxisX S viewport parentRect = rc_x R + L \<and>
       convertOffsetToAbsolute val Right AxisX S viewport parentRect
         = rc_x R + rc_width R - L - S \<and>
       convertOffsetToAbsolute val Center AxisX S viewport parentRect
         = rc_x R + rc_width R / 2 + L - S / 2 \<and>
       convertOffsetToAbsolute val Top AxisY S viewport parentRect = rc_y R + L \<and>
       convertOffsetToAbsolute val Bottom AxisY S viewport parentRect
         = rc_y R + rc_height R - L - S \<and>
       convertOffsetToAbsolute val Center AxisY S viewport parentRect
         = rc_y R + rc_height R / 2 + L - S / 2)"
  by (simp add: convertOffsetToAbsolute_def refRectOf_def Let_def)

theorem convertOffsetToAbsolute_formula_witness:
  "convertOffsetToAbsolute \<lparr>lv_value = 150, lv_unit = PX\<rparr> Right AxisX 50 vpA parent300 = 120 \<and>
   convertOffsetToAbsolute \<lparr>lv_value = 10, lv_unit = VH\<rparr> Center AxisY 50 vpA parent300 = 455"
  using convertOffsetToAbsolute_formula [of "\<lparr>lv_value = 150, lv_unit = PX\<rparr>" vpA parent300 50]
    convertOffsetToAbsolute_formula [of "\<lparr>lv_value = 10, lv_unit = VH\<rparr>" vpA parent300 50]
  by (simp add: resolveLength_def vpA_def parent300_def Let_def)

text \<open>
  Claim C6. When the reference dimension of a percent-based unit is 0, the conversion
  yields 0 in both directions: \<^verbatim>\<open>resolveLength\<close> returns 0, and \<^verbatim>\<open>fromPixels\<close> and
  \<^verbatim>\<open>convertAbsoluteToOffset\<close> return the finite number 0, where the division that their
  guard skips would have been non-finite.
\<close>

theorem zero_reference_yields_zero:
  "(rc_width parentRect = 0 \<longrightarrow>
      resolveLength \<lparr>lv_value = v, lv_unit = PERCENT_PARENT_W\<rparr> viewport parentRect = 0 \<and>
      fromPixels p PERCENT_PARENT_W viewport parentRect = Finite 0 \<and>
      convertAbsoluteToOffset x anchor axis s PERCENT_PARENT_W viewport parentRect = Finite 0 \<and>
      timesNumber (divideNumber p (rc_width parentRect)) 100 = NonFinite) \<and>
   (rc_height parentRect = 0 \<longrightarrow>
      resolveLength \<lparr>lv_value = v, lv_unit = PERCENT_PARENT_H\<rparr> viewport parentRect = 0 \<and>
      fromPixels p PERCENT_PARENT_H viewport parentRect = Finite 0 \<and>
      convertAbsoluteToOffset x anchor axis s PERCENT_PARENT_H viewport parentRect = Finite 0 \<and>
      timesNumber (divideNumber p (rc_height parentRect)) 100 = NonFinite) \<and>
   (vp_width viewport = 0 \<longrightarrow>
      resolveLength \<lparr>lv_value = v, lv_unit = VW\<rparr> viewport parentRect = 0 \<and>
      fromPixels p VW viewport parentRect = Finite 0 \<and>
      convertAbsoluteToOffset x anchor axis s VW viewport parentRect = Finite 0 \<and>
      timesNumber (divideNumber p (vp_width viewport)) 100 = NonFinite) \<and>
   (vp_height viewport = 0 \<longrightarrow>
      resolveLength \<lparr>lv_value = v, lv_unit = VH\<rparr> viewport parentRect = 0 \<and>
      fromPixels p VH viewport parentRect = Finite 0 \<and>
      convertAbsoluteToOffset x anchor axis s VH viewport parentRect = Finite 0 \<and>
      timesNumber (divideNumber p (vp_height viewport)) 100 = NonFinite)"
  by (simp add: conversion_defs)

theorem zero_reference_yields_zero_witness:
  "rc_width zeroRect = 0 \<and> rc_height zeroRect = 0 \<and>
   vp_width zeroViewport = 0 \<and> vp_height zeroViewport = 0 \<and>
   resolveLength \<lparr>lv_value = 25, lv_unit = PERCENT_PARENT_W\<rparr> zeroViewport zeroRect = 0 \<and>
   fromPixels 40 PERCENT_PARENT_H zeroViewport zeroRect = Finite 0 \<and>
   fromPixels 40 VW zeroViewport zeroRect = Finite 0 \<and>
   convertAbsoluteToOffset 100 Right AxisX 50 VW zeroViewport zeroRect = Finite 0 \<and>
   convertAbsoluteToOffset 100 Bottom AxisY 50 VH zeroViewport zeroRect = Finite 0 \<and>
   timesNumber (divideNumber 40 (rc_width zeroRect)) 100 = NonFinite \<and>
   fromPixels 40 PERCENT_PARENT_W vpA parent300 \<noteq> Finite 0"
proof -
  have zeros: "rc_width zeroRect = 0" "rc_height zeroRect = 0"
    "vp_width zeroViewport = 0" "vp_height zeroViewport = 0"
    by (simp_all add: zeroRect_def zeroViewport_def)
  have guarded: "fromPixels 40 PERCENT_PARENT_W vpA parent300 \<noteq> Finite 0"
    by (simp add: conversion_defs parent300_def)
  from zero_reference_yields_zero [of zeroRect 25 zeroViewport 40 100 Right AxisX 50]
    zero_reference_yields_zero [of zeroRect 25 zeroViewport 40 100 Bottom AxisY 50]
    zeros guarded
  show ?thesis by blast
qed




section \<open>Scenario A\<close>

lemmas pipeline_defs =
  withParents_def estimatedElements_def estimate_def placeIn_def toPixels_def
  resolveLength_def convertOffsetToAbsolute_def refRectOf_def viewportRect_def anchorXOf_def
  anchorYOf_def with_runtime_def assignParent_def sortedParents_def sortBy_def
  potentialParents_def isCandidate_def compareParents_def zIndexOf_def areaOf_def
  findById_def asLayoutElement_def truthyParentId_def parentRectOf_def finalize_def Let_def

lemmas evaluation_defs = pipeline_defs calculateRuntimePositions_def calculateElement.simps

text \<open>
  Claim C8. On the 1280 by 800 viewport, container C (0px left, 0px top, 50 percent of
  the parent width and height, z = 1) resolves to (0, 0, 640, 400); the Pass-1 center
  of child D (10px left, 10px top, 50px by 50px, z = 2) is (35, 35), inside C, so D's
  parent is C, and D's final rectangle is (10, 10, 50, 50).
\<close>

theorem scenario_A:
  "calculateRuntimePositions [elC, elD] vpA =
     Inr [Some (with_runtime elC
                  (Some \<lparr>rt_x = 0, rt_y = 0, rt_width = 640, rt_height = 400,
                         rt_parentId = None\<rparr>)),
          Some (with_runtime elD
                  (Some \<lparr>rt_x = 10, rt_y = 10, rt_width = 50, rt_height = 50,
                         rt_parentId = Some (el_id elC)\<rparr>))] \<and>
   rt_x (el_runtime (estimate vpA elD)) + rt_width (el_runtime (estimate vpA elD)) / 2 = 35 \<and>
   rt_y (el_runtime (estimate vpA elD)) + rt_height (el_runtime (estimate vpA elD)) / 2 = 35 \<and>
   potentialParents (estimatedElements [elC, elD] vpA) (estimate vpA elD) = [estimate vpA elC]"
  by (simp add: evaluation_defs elC_def elD_def vpA_def)

section \<open>Resolution always succeeds and keeps the elements\<close>

lemma findById_Some: "findById els i = Some el \<Longrightarrow> el_id el = i \<and> el \<in> set els"
  unfolding findById_def by (auto simp: find_Some_iff)

lemma findById_None: "findById els i = None \<longleftrightarrow> i \<notin> el_id ` set els"
  unfolding findById_def by (auto simp: find_None_iff)

lemma truthyParentId_Some: "truthyParentId p = Some s \<Longrightarrow> p = Some s"
  unfolding truthyParentId_def by (auto split: option.splits if_splits)

lemma agrees_finalize: "agrees (finalize el viewport parentRect) el"
  by (simp add: agrees_def finalize_def with_runtime_def placeIn_def Let_def)

lemma okMap_update:
  "okMap wp fm \<Longrightarrow> findById wp i = Some el \<Longrightarrow> okMap wp (fm(i \<mapsto> finalize el viewport parentRect))"
  unfolding okMap_def by (auto simp: agrees_finalize)

lemma calculateElement_ok:
  "closedParents wp \<Longrightarrow> okMap wp fm \<Longrightarrow> i \<in> el_id ` set wp \<Longrightarrow>
   \<exists>res fm'. calculateElement wp viewport fm i stack = Inr (res, fm') \<and> okMap wp fm' \<and>
     dom fm \<subseteq> dom fm' \<and> (i \<notin> set stack \<longrightarrow> i \<in> dom fm')"
proof (induction wp viewport fm i stack rule: calculateElement.induct)
  case (1 wp viewport fm i stack)
  show ?case
  proof (cases "fm i")
    case (Some cached)
    then show ?thesis
      using "1.prems" by (subst calculateElement.simps) auto
  next
    case None
    note fmNone = None
    show ?thesis
    proof (cases "i \<in> set stack")
      case True
      then show ?thesis
        using fmNone "1.prems" by (subst calculateElement.simps) auto
    next
      case False
      from "1.prems"(3) obtain el where found: "findById wp i = Some el"
        using findById_None [of wp i] by (cases "findById wp i") auto
      show ?thesis
      proof (cases "truthyParentId (rt_parentId (el_runtime el))")
        case None
        then show ?thesis
          using fmNone False found "1.prems" okMap_update [OF "1.prems"(2) found]
          by (subst calculateElement.simps) (auto simp: Let_def)
      next
        case (Some pid)
        have "pid \<in> el_id ` set wp"
          using truthyParentId_Some [OF Some] findById_Some [OF found] "1.prems"(1)
          unfolding closedParents_def by blast
        from "1.IH" [OF fmNone False found Some "1.prems"(1,2) this]
        obtain parentEl fm' where rec: "calculateElement wp viewport fm pid (stack @ [i]) = Inr (parentEl, fm')"
          and ok': "okMap wp fm'" and sub: "dom fm \<subseteq> dom fm'"
          by blast
        show ?thesis
          using fmNone False found Some rec sub okMap_update [OF ok' found]
          by (subst calculateElement.simps) (auto simp: Let_def)
      qed
    qed
  qed
qed

lemma calculateAll_ok:
  "closedParents wp \<Longrightarrow> okMap wp fm \<Longrightarrow> set rest \<subseteq> set wp \<Longrightarrow>
   \<exists>fm'. calculateAll wp viewport rest fm = Inr fm' \<and> okMap wp fm' \<and>
     dom fm \<subseteq> dom fm' \<and> el_id ` set rest \<subseteq> dom fm'"
proof (induction rest arbitrary: fm)
  case Nil
  then show ?case by simp
next
  case (Cons el rest)
  have "el_id el \<in> el_id ` set wp" using Cons.prems(3) by auto
  from calculateElement_ok [OF Cons.prems(1,2) this, of viewport "[]"]
  obtain res fm1 where step: "calculateElement wp viewport fm (el_id el) [] = Inr (res, fm1)"
    and ok1: "okMap wp fm1" and sub1: "dom fm \<subseteq> dom fm1" and in1: "el_id el \<in> dom fm1"
    by auto
  from Cons.IH [OF Cons.prems(1) ok1] Cons.prems(3)
  obtain fm' where "calculateAll wp viewport rest fm1 = Inr fm'" "okMap wp fm'"
    "dom fm1 \<subseteq> dom fm'" "el_id ` set rest \<subseteq> dom fm'"
    by auto
  with step sub1 in1 show ?case by auto
qed

lemma estimate_fields [simp]:
  "el_id (estimate viewport e) = el_id e"
  "el_type (estimate viewport e) = el_type e"
  "el_name (estimate viewport e) = el_name e"
  "el_layout (estimate viewport e) = el_layout e"
  "rt_parentId (el_runtime (estimate viewport e)) = None"
  by (simp_all add: estimate_def with_runtime_def placeIn_def Let_def)

lemma set_insertBy [simp]: "set (insertBy cmp a bs) = insert a (set bs)"
  by (induction bs) auto

lemma set_sortBy [simp]: "set (sortBy cmp xs) = set xs"
  unfolding sortBy_def by (induction xs) auto

lemma assignParent_fields [simp]:
  "el_id (assignParent est c) = el_id c"
  "el_type (assignParent est c) = el_type c"
  "el_name (assignParent est c) = el_name c"
  "el_layout (assignParent est c) = el_layout c"
  "rt_x (el_runtime (assignParent est c)) = rt_x (el_runtime c)"
  "rt_y (el_runtime (assignParent est c)) = rt_y (el_runtime c)"
  "rt_width (el_runtime (assignParent est c)) = rt_width (el_runtime c)"
  "rt_height (el_runtime (assignParent est c)) = rt_height (el_runtime c)"
  by (simp_all add: assignParent_def with_runtime_def split: list.splits)

lemma assignParent_parentId:
  "rt_parentId (el_runtime (assignParent est c)) =
     (case sortedParents est c of [] \<Rightarrow> rt_parentId (el_runtime c) | p # _ \<Rightarrow> Some (el_id p))"
  by (simp add: assignParent_def with_runtime_def split: list.splits)

lemma set_sortedParents: "set (sortedParents est c) = set (potentialParents est c)"
  by (simp add: sortedParents_def)

lemma potentialParents_member:
  "p \<in> set (potentialParents est c) \<Longrightarrow>
     p \<in> set est \<and> el_id p \<noteq> el_id c \<and> lc_isContainer (el_layout p) \<noteq> Some False"
  by (auto simp: potentialParents_def isCandidate_def Let_def split: if_splits)

lemma assignParent_Some:
  assumes "rt_parentId (el_runtime (assignParent est c)) = Some pid"
    and "rt_parentId (el_runtime c) = None"
  shows "\<exists>p \<in> set (potentialParents est c). el_id p = pid"
proof (cases "sortedParents est c")
  case Nil
  with assms show ?thesis by (simp add: assignParent_parentId)
next
  case (Cons p ps)
  then have "p \<in> set (potentialParents est c)"
    using set_sortedParents [of est c] by auto
  moreover have "el_id p = pid"
    using assms(1) Cons by (simp add: assignParent_parentId)
  ultimately show ?thesis by blast
qed

lemma map_el_id_withParents [simp]: "map el_id (withParents est) = map el_id est"
  by (simp add: withParents_def)

lemma map_el_id_estimated [simp]: "map el_id (estimatedElements els viewport) = map el_id els"
  by (simp add: estimatedElements_def)

lemma ids_withParents: "el_id ` set (withParents (estimatedElements els viewport)) = el_id ` set els"
proof -
  have "set (map el_id (withParents (estimatedElements els viewport))) = set (map el_id els)"
    by simp
  then show ?thesis by (simp only: set_map)
qed

lemma withParents_member:
  assumes "e \<in> set (withParents (estimatedElements els viewport))"
  shows "\<exists>c \<in> set (estimatedElements els viewport).
           e = assignParent (estimatedElements els viewport) c \<and> rt_parentId (el_runtime c) = None"
  using assms by (auto simp: withParents_def estimatedElements_def)

lemma withParents_parent:
  assumes "e \<in> set (withParents (estimatedElements els viewport))"
    and "rt_parentId (el_runtime e) = Some pid"
  shows "pid \<in> el_id ` set els \<and> pid \<noteq> el_id e"
proof -
  let ?est = "estimatedElements els viewport"
  from withParents_member [OF assms(1)] obtain c where c: "c \<in> set ?est"
    "e = assignParent ?est c" "rt_parentId (el_runtime c) = None"
    by blast
  from assignParent_Some [of ?est c pid] assms(2) c obtain p
    where p: "p \<in> set (potentialParents ?est c)" "el_id p = pid"
    by blast
  from potentialParents_member [OF p(1)] have "p \<in> set ?est" "el_id p \<noteq> el_id c"
    by auto
  moreover have "el_id ` set ?est = el_id ` set els"
    by (simp add: estimatedElements_def image_image)
  ultimately show ?thesis using p(2) c(2) by auto
qed

lemma closedParents_withParents: "closedParents (withParents (estimatedElements els viewport))"
  unfolding closedParents_def using withParents_parent ids_withParents by blast

lemma okMap_empty: "okMap wp Map.empty"
  by (simp add: okMap_def)

lemma calculateRuntimePositions_result:
  "\<exists>outs. calculateRuntimePositions els viewport = Inr (map Some outs) \<and>
     length outs = length els \<and>
     (\<forall>k < length els. \<exists>el.
        findById (withParents (estimatedElements els viewport)) (el_id (els ! k)) = Some el \<and>
        agrees (outs ! k) el)"
proof -
  let ?wp = "withParents (estimatedElements els viewport)"
  from calculateAll_ok [OF closedParents_withParents okMap_empty subset_refl, of els viewport viewport]
  obtain fm where fm: "calculateAll ?wp viewport ?wp Map.empty = Inr fm" "okMap ?wp fm"
    "el_id ` set ?wp \<subseteq> dom fm"
    by blast
  have dom: "\<And>e. e \<in> set els \<Longrightarrow> \<exists>r. fm (el_id e) = Some r"
    using fm(3) ids_withParents [of els viewport] by blast
  define outs where "outs = map (\<lambda>e. the (fm (el_id e))) els"
  have "map (\<lambda>el. fm (el_id el)) els = map Some outs"
    unfolding outs_def using dom by (induction els) auto
  then have res: "calculateRuntimePositions els viewport = Inr (map Some outs)"
    using fm(1) by (simp add: calculateRuntimePositions_def Let_def)
  have "\<exists>el. findById ?wp (el_id (els ! k)) = Some el \<and> agrees (outs ! k) el"
    if "k < length els" for k
  proof -
    from that dom obtain r where r: "fm (el_id (els ! k)) = Some r"
      using nth_mem by blast
    with that have "outs ! k = r" by (simp add: outs_def)
    with r fm(2) show ?thesis unfolding okMap_def by blast
  qed
  moreover have "length outs = length els" by (simp add: outs_def)
  ultimately show ?thesis using res by blast
qed

lemma findById_distinct:
  "distinct (map el_id xs) \<Longrightarrow> k < length xs \<Longrightarrow> findById xs (el_id (xs ! k)) = Some (xs ! k)"
proof (induction xs arbitrary: k)
  case Nil
  then show ?case by simp
next
  case (Cons x xs)
  show ?case
  proof (cases k)
    case 0
    then show ?thesis by (simp add: findById_def)
  next
    case (Suc j)
    with Cons.prems have "j < length xs" "el_id x \<noteq> el_id (xs ! j)" by auto
    with Cons Suc show ?thesis by (simp add: findById_def)
  qed
qed

lemma resolved_distinct:
  assumes "distinct (map el_id els)"
  shows "\<exists>outs. calculateRuntimePositions els viewport = Inr (map Some outs) \<and>
           length outs = length els \<and>
           (\<forall>k < length els.
              agrees (outs ! k)
                (assignParent (estimatedElements els viewport) (estimate viewport (els ! k))))"
proof -
  let ?est = "estimatedElements els viewport"
  let ?wp = "withParents ?est"
  from calculateRuntimePositions_result [of els viewport] obtain outs
    where res: "calculateRuntimePositions els viewport = Inr (map Some outs)"
      and len: "length outs = length els"
      and ag: "\<forall>k < length els. \<exists>el. findById ?wp (el_id (els ! k)) = Some el \<and> agrees (outs ! k) el"
    by blast
  have dist: "distinct (map el_id ?wp)" using assms by simp
  have "agrees (outs ! k) (assignParent ?est (estimate viewport (els ! k)))"
    if k: "k < length els" for k
  proof -
    have lw: "k < length ?wp" using k by (simp add: withParents_def estimatedElements_def)
    have wk: "?wp ! k = assignParent ?est (estimate viewport (els ! k))"
      using k by (simp add: withParents_def estimatedElements_def)
    then have "el_id (?wp ! k) = el_id (els ! k)" by simp
    with findById_distinct [OF dist lw]
    have "findById ?wp (el_id (els ! k)) = Some (?wp ! k)" by simp
    with ag k wk show ?thesis by auto
  qed
  with res len show ?thesis by blast
qed

lemma agrees_fields:
  "agrees r el \<Longrightarrow> el_id r = el_id el \<and> el_type r = el_type el \<and> el_name r = el_name el \<and>
     el_layout r = el_layout el \<and>
     (\<exists>rr. el_runtime r = Some rr \<and> rt_parentId rr = rt_parentId (el_runtime el))"
  by (auto simp: agrees_def split: option.splits)

section \<open>The comparator is a stable sort by z-order and area\<close>

lemma compareParents_le: "compareParents a b \<le> 0 \<longleftrightarrow> parentKey a \<le> parentKey b"
  by (auto simp: compareParents_def parentKey_def less_eq_prod_def Let_def)

lemma insertBy_insort: "insertBy compareParents a bs = insort_key parentKey a bs"
  by (induction bs) (simp_all add: compareParents_le)

lemma sortBy_sort_key: "sortBy compareParents xs = sort_key parentKey xs"
  unfolding sortBy_def by (induction xs) (simp_all add: insertBy_insort)

lemma parentKey_le:
  "parentKey a \<le> parentKey b \<longleftrightarrow>
     zIndexOf b < zIndexOf a \<or> (zIndexOf b = zIndexOf a \<and> areaOf a \<le> areaOf b)"
  by (auto simp: parentKey_def less_eq_prod_def)

lemma parentKey_eq: "parentKey p = (- z, ar) \<longleftrightarrow> zIndexOf p = z \<and> areaOf p = ar"
  by (auto simp: parentKey_def)

section \<open>The resolved geometry depends on ids and layouts only\<close>

lemma anonymise_fields [simp]:
  "el_id (anonymise e) = el_id e"
  "el_layout (anonymise e) = el_layout e"
  "el_runtime (anonymise e) = el_runtime e"
  by (simp_all add: anonymise_def)

lemma estimate_core: "estimate viewport (core e) = anonymise (estimate viewport e)"
  by (simp add: estimate_def core_def anonymise_def with_runtime_def)

lemma estimatedElements_core:
  "estimatedElements (map core els) viewport = map anonymise (estimatedElements els viewport)"
  by (simp add: estimatedElements_def estimate_core)

lemma isCandidate_anonymise [simp]: "isCandidate (anonymise c) (anonymise p) = isCandidate c p"
  by (simp add: isCandidate_def)

lemma potentialParents_anonymise:
  "potentialParents (map anonymise est) (anonymise c) = map anonymise (potentialParents est c)"
  by (simp add: potentialParents_def filter_map comp_def)

lemma compareParents_anonymise [simp]:
  "compareParents (anonymise a) (anonymise b) = compareParents a b"
  by (simp add: compareParents_def zIndexOf_def areaOf_def)

lemma insertBy_anonymise:
  "insertBy compareParents (anonymise a) (map anonymise bs)
     = map anonymise (insertBy compareParents a bs)"
  by (induction bs) simp_all

lemma sortBy_anonymise:
  "sortBy compareParents (map anonymise xs) = map anonymise (sortBy compareParents xs)"
  unfolding sortBy_def by (induction xs) (simp_all add: insertBy_anonymise)

lemma sortedParents_anonymise:
  "sortedParents (map anonymise est) (anonymise c) = map anonymise (sortedParents est c)"
  by (simp add: sortedParents_def potentialParents_anonymise sortBy_anonymise)

lemma assignParent_anonymise:
  "assignParent (map anonymise est) (anonymise c) = anonymise (assignParent est c)"
  unfolding assignParent_def sortedParents_anonymise
  by (cases "sortedParents est c") (simp_all add: with_runtime_def anonymise_def)

lemma withParents_anonymise:
  "withParents (map anonymise est) = map anonymise (withParents est)"
  by (simp add: withParents_def assignParent_anonymise)

lemma findById_anonymise:
  "findById (map anonymise wp) i = map_option anonymise (findById wp i)"
  unfolding findById_def by (induction wp) simp_all

lemma asLayoutElement_anonymise:
  "asLayoutElement (anonymise e) = anonymise (asLayoutElement e)"
  by (simp add: asLayoutElement_def with_runtime_def anonymise_def)

lemma finalize_anonymise:
  "finalize (anonymise e) viewport parentRect = anonymise (finalize e viewport parentRect)"
  by (simp add: finalize_def with_runtime_def anonymise_def)

lemma parentRectOf_anonymise:
  "parentRectOf viewport (map_option anonymise p) = parentRectOf viewport p"
  by (simp add: parentRectOf_def split: option.splits)

lemma anonMap_upd: "anonMap (fm(i \<mapsto> r)) = (anonMap fm)(i \<mapsto> anonymise r)"
  by (auto simp: anonMap_def)

lemma anonMap_apply: "anonMap fm i = map_option anonymise (fm i)"
  by (simp add: anonMap_def)

lemma anonMap_empty: "anonMap Map.empty = Map.empty"
  by (simp add: anonMap_def)

lemmas anon_simps =
  anonResult_def findById_anonymise finalize_anonymise anonMap_upd
  parentRectOf_anonymise asLayoutElement_anonymise option.map_comp comp_def Let_def

lemma calculateElement_anonymise:
  "calculateElement (map anonymise wp) viewport (anonMap fm) i stack
     = anonResult (calculateElement wp viewport fm i stack)"
proof (induction wp viewport fm i stack rule: calculateElement.induct)
  case (1 wp viewport fm i stack)
  have unfold_left:
    "calculateElement (map anonymise wp) viewport (anonMap fm) i stack =
     (case anonMap fm i of
        Some cached \<Rightarrow> Inr (Some cached, anonMap fm)
      | None \<Rightarrow>
          if i \<in> set stack
          then Inr (map_option asLayoutElement (findById (map anonymise wp) i), anonMap fm)
          else
            (case findById (map anonymise wp) i of
               None \<Rightarrow> Inl TypeError
             | Some el \<Rightarrow>
                 (case truthyParentId (rt_parentId (el_runtime el)) of
                    None \<Rightarrow>
                      (let res = finalize el viewport (viewportRect viewport)
                       in Inr (Some res, (anonMap fm)(i \<mapsto> res)))
                  | Some pid \<Rightarrow>
                      (case calculateElement (map anonymise wp) viewport (anonMap fm) pid
                              (stack @ [i]) of
                         Inl e \<Rightarrow> Inl e
                       | Inr (parentEl, fm') \<Rightarrow>
                           (let res = finalize el viewport (parentRectOf viewport parentEl)
                            in Inr (Some res, fm'(i \<mapsto> res)))))))"
    by (rule calculateElement.simps)
  have ai: "anonMap fm i = map_option anonymise (fm i)"
    by (simp add: anonMap_def)
  have unfold_right:
    "calculateElement wp viewport fm i stack =
     (case fm i of
        Some cached \<Rightarrow> Inr (Some cached, fm)
      | None \<Rightarrow>
          if i \<in> set stack then Inr (map_option asLayoutElement (findById wp i), fm)
          else
            (case findById wp i of
               None \<Rightarrow> Inl TypeError
             | Some el \<Rightarrow>
                 (case truthyParentId (rt_parentId (el_runtime el)) of
                    None \<Rightarrow>
                      (let res = finalize el viewport (viewportRect viewport)
                       in Inr (Some res, fm(i \<mapsto> res)))
                  | Some pid \<Rightarrow>
                      (case calculateElement wp viewport fm pid (stack @ [i]) of
                         Inl e \<Rightarrow> Inl e
                       | Inr (parentEl, fm') \<Rightarrow>
                           (let res = finalize el viewport (parentRectOf viewport parentEl)
                            in Inr (Some res, fm'(i \<mapsto> res)))))))"
    by (rule calculateElement.simps)
  show ?case
  proof (cases "fm i")
    case (Some cached)
    then show ?thesis
      unfolding unfold_left unfold_right by (simp add: anon_simps ai)
  next
    case None
    note fmNone = None
    show ?thesis
    proof (cases "i \<in> set stack")
      case True
      then show ?thesis
        using fmNone
        unfolding unfold_left unfold_right by (simp add: anon_simps ai)
    next
      case False
      note notin = False
      show ?thesis
      proof (cases "findById wp i")
        case None
        then show ?thesis
          using fmNone notin
          unfolding unfold_left unfold_right by (simp add: anon_simps ai)
      next
        case (Some el)
        note found = Some
        show ?thesis
        proof (cases "truthyParentId (rt_parentId (el_runtime el))")
          case None
          then show ?thesis
            using fmNone notin found
            unfolding unfold_left unfold_right by (simp add: anon_simps ai)
        next
          case (Some pid)
          note IH = "1.IH" [OF fmNone notin found Some]
          show ?thesis
          proof (cases "calculateElement wp viewport fm pid (stack @ [i])")
            case (Inl e)
            then show ?thesis
              using fmNone notin found Some IH
              unfolding unfold_left unfold_right by (simp add: anon_simps ai)
          next
            case (Inr pr)
            obtain parentEl fm' where pr: "pr = (parentEl, fm')" by (cases pr)
            show ?thesis
              using fmNone notin found Some IH Inr pr
              unfolding unfold_left unfold_right by (simp add: anon_simps ai)
          qed
        qed
      qed
    qed
  qed
qed

lemma calculateAll_anonymise:
  "calculateAll (map anonymise wp) viewport (map anonymise rest) (anonMap fm)
     = (case calculateAll wp viewport rest fm of Inl e \<Rightarrow> Inl e | Inr fm' \<Rightarrow> Inr (anonMap fm'))"
proof (induction rest arbitrary: fm)
  case Nil
  then show ?case by simp
next
  case (Cons el rest)
  show ?case
  proof (cases "calculateElement wp viewport fm (el_id el) []")
    case (Inl e)
    then show ?thesis
      using calculateElement_anonymise [of wp viewport fm "el_id el" "[]"]
      by (simp add: anonResult_def)
  next
    case (Inr pr)
    obtain r fm1 where pr: "pr = (r, fm1)" by (cases pr)
    show ?thesis
      using calculateElement_anonymise [of wp viewport fm "el_id el" "[]"] Inr pr Cons.IH [of fm1]
      by (simp add: anonResult_def)
  qed
qed

lemma calculateRuntimePositions_core:
  "calculateRuntimePositions (map core els) viewport
     = (case calculateRuntimePositions els viewport of
          Inl e \<Rightarrow> Inl e
        | Inr outs \<Rightarrow> Inr (map (map_option anonymise) outs))"
proof -
  let ?wp = "withParents (estimatedElements els viewport)"
  have wp: "withParents (estimatedElements (map core els) viewport) = map anonymise ?wp"
    by (simp add: estimatedElements_core withParents_anonymise)
  have ids: "map (\<lambda>el. f (el_id el)) (map core els) = map (\<lambda>el. f (el_id el)) els" for f :: "string \<Rightarrow> 'b"
    by (simp add: core_def)
  show ?thesis
    using calculateAll_anonymise [of ?wp viewport ?wp Map.empty]
    by (cases "calculateAll ?wp viewport ?wp Map.empty")
      (simp_all add: calculateRuntimePositions_def wp anonMap_empty Let_def core_def comp_def
        anonMap_apply)
qed

lemma core_eq:
  "map el_id xs = map el_id ys \<Longrightarrow> map el_layout xs = map el_layout ys \<Longrightarrow> map core xs = map core ys"
proof (induction xs arbitrary: ys)
  case Nil
  then show ?case by simp
next
  case (Cons x xs)
  then obtain y ys' where "ys = y # ys'" by (cases ys) auto
  with Cons show ?case by (simp add: core_def)
qed

lemma map_runtime_anonymise: "map el_runtime (map anonymise xs) = map el_runtime xs"
  by simp

lemma result_ids:
  assumes "calculateRuntimePositions elements viewport = Inr (map Some outs)"
  shows "map el_id outs = map el_id elements"
proof -
  from calculateRuntimePositions_result [of elements viewport] assms obtain outs'
    where "map Some outs' = map Some outs" and len: "length outs' = length elements"
      and ag: "\<And>k. k < length elements \<Longrightarrow>
          \<exists>el. findById (withParents (estimatedElements elements viewport)) (el_id (elements ! k)) = Some el \<and> agrees (outs' ! k) el"
    by auto
  then have eq: "outs' = outs" by simp
  have "el_id (outs ! k) = el_id (elements ! k)" if "k < length elements" for k
    using ag [OF that] agrees_fields findById_Some eq by metis
  with len eq show ?thesis by (auto intro!: nth_equalityI)
qed

lemma idempotent_layouts:
  assumes res: "calculateRuntimePositions elements viewport = Inr (map Some outs)"
    and lay: "map el_layout outs = map el_layout elements"
  shows "\<exists>outs'. calculateRuntimePositions outs viewport = Inr (map Some outs') \<and>
           map el_runtime outs' = map el_runtime outs"
proof -
  have "map core outs = map core elements"
    using core_eq [OF result_ids [OF res] lay] .
  then have "calculateRuntimePositions (map core outs) viewport
      = calculateRuntimePositions (map core elements) viewport"
    by simp
  moreover from calculateRuntimePositions_result [of outs viewport] obtain outs'
    where res': "calculateRuntimePositions outs viewport = Inr (map Some outs')"
    by blast
  ultimately have "map (map_option anonymise) (map Some outs') = map (map_option anonymise) (map Some outs)"
    using res by (simp add: calculateRuntimePositions_core)
  then have "map Some (map anonymise outs') = map Some (map anonymise outs)"
    by (simp add: comp_def)
  then have "map anonymise outs' = map anonymise outs"
    using inj_map_eq_map [OF inj_Some] by blast
  then have "map el_runtime (map anonymise outs') = map el_runtime (map anonymise outs)"
    by simp
  then have "map el_runtime outs' = map el_runtime outs"
    by (simp only: map_runtime_anonymise)
  with res' show ?thesis by blast
qed

section \<open>The containment pass\<close>

lemma potentialParents_filter:
  "potentialParents est E =
     filter (\<lambda>P. el_id P \<noteq> el_id E \<and> lc_isContainer (el_layout P) \<noteq> Some False \<and>
                 rt_x (el_runtime P) \<le> rt_x (el_runtime E) + rt_width (el_runtime E) / 2 \<and>
                 rt_x (el_runtime E) + rt_width (el_runtime E) / 2
                   \<le> rt_x (el_runtime P) + rt_width (el_runtime P) \<and>
                 rt_y (el_runtime P) \<le> rt_y (el_runtime E) + rt_height (el_runtime E) / 2 \<and>
                 rt_y (el_runtime E) + rt_height (el_runtime E) / 2
                   \<le> rt_y (el_runtime P) + rt_height (el_runtime P)) est"
  unfolding potentialParents_def
  by (rule filter_cong [OF refl]) (simp add: isCandidate_def Let_def)

lemma estimated_member:
  "E \<in> set (estimatedElements elements viewport) \<Longrightarrow>
     \<exists>x \<in> set elements. E = estimate viewport x"
  by (auto simp: estimatedElements_def)

lemma assignParent_candidate:
  assumes "E \<in> set (estimatedElements elements viewport)"
    and "rt_parentId (el_runtime (assignParent (estimatedElements elements viewport) E)) = Some pid"
  shows "\<exists>P \<in> set (potentialParents (estimatedElements elements viewport) E).
           el_id P = pid \<and> lc_isContainer (el_layout P) \<noteq> Some False"
proof -
  from estimated_member [OF assms(1)] have "rt_parentId (el_runtime E) = None"
    by auto
  from assignParent_Some [OF assms(2) this] potentialParents_member show ?thesis
    by blast
qed

lemma resolved_parentIds:
  assumes dist: "distinct (map el_id elements)"
  shows "\<exists>outs. calculateRuntimePositions elements viewport = Inr (map Some outs) \<and>
           map (\<lambda>out. map_option rt_parentId (el_runtime out)) outs
             = map (\<lambda>c. Some (rt_parentId
                     (el_runtime (assignParent (estimatedElements elements viewport) c))))
                 (estimatedElements elements viewport) \<and>
           (\<forall>P \<in> set elements. lc_isContainer (el_layout P) = Some False \<longrightarrow>
              (\<forall>out \<in> set outs. \<forall>r. el_runtime out = Some r \<longrightarrow>
                 rt_parentId r \<noteq> Some (el_id P)))"
proof -
  let ?est = "estimatedElements elements viewport"
  from resolved_distinct [OF dist, of viewport] obtain outs
    where res: "calculateRuntimePositions elements viewport = Inr (map Some outs)"
      and len: "length outs = length elements"
      and ag: "\<And>k. k < length elements \<Longrightarrow>
             agrees (outs ! k) (assignParent ?est (estimate viewport (elements ! k)))"
    by blast
  have estk: "?est ! k = estimate viewport (elements ! k)" if "k < length elements" for k
    using that by (simp add: estimatedElements_def)
  have pk: "map_option rt_parentId (el_runtime (outs ! k))
      = Some (rt_parentId (el_runtime (assignParent ?est (?est ! k))))"
    if "k < length elements" for k
    using agrees_fields [OF ag [OF that]] estk [OF that] by auto
  have ids: "map (\<lambda>out. map_option rt_parentId (el_runtime out)) outs
      = map (\<lambda>c. Some (rt_parentId (el_runtime (assignParent ?est c)))) ?est"
    using len pk by (auto intro!: nth_equalityI simp: estimatedElements_def)
  have "rt_parentId r \<noteq> Some (el_id P)"
    if P: "P \<in> set elements" "lc_isContainer (el_layout P) = Some False"
      and out: "out \<in> set outs" "el_runtime out = Some r" for P out r
  proof
    assume eq: "rt_parentId r = Some (el_id P)"
    from out(1) len obtain k where k: "k < length elements" "out = outs ! k"
      by (auto simp: in_set_conv_nth)
    from pk [OF k(1)] k(2) out(2) eq
    have "rt_parentId (el_runtime (assignParent ?est (?est ! k))) = Some (el_id P)"
      by simp
    moreover have "?est ! k \<in> set ?est"
      using k(1) by (simp add: estimatedElements_def)
    ultimately obtain Q where Q: "Q \<in> set (potentialParents ?est (?est ! k))"
      "el_id Q = el_id P" "lc_isContainer (el_layout Q) \<noteq> Some False"
      using assignParent_candidate by blast
    from potentialParents_member [OF Q(1)] have "Q \<in> set ?est" by simp
    from estimated_member [OF this] obtain x where x: "x \<in> set elements" "Q = estimate viewport x"
      by blast
    from dist have "inj_on el_id (set elements)"
      by (simp add: distinct_map)
    with x P(1) Q(2) have "x = P"
      by (auto dest: inj_onD)
    with x(2) Q(3) P(2) show False by simp
  qed
  with res ids show ?thesis by blast
qed

text \<open>
  Claim C3. In the containment pass, the candidate parents of an element E are exactly
  the other elements (different id) whose \<^verbatim>\<open>isContainer\<close> is not explicitly false and
  whose Pass-1 rectangle contains E's Pass-1 center under closed bounds on all four
  edges; an empty candidate list leaves E's parent id null, and a parent id that is
  assigned is the id of a candidate, hence never of an element chosen with
  \<^verbatim>\<open>isContainer: false\<close>. With unique ids, the resolved parent ids of the output are
  those of the containment pass, and no output element has the id of an element with
  \<^verbatim>\<open>isContainer: false\<close> as its parent id.
\<close>

theorem containment_pass:
  assumes "est = estimatedElements elements viewport" and "E \<in> set est"
  shows "potentialParents est E =
           filter (\<lambda>P. el_id P \<noteq> el_id E \<and> lc_isContainer (el_layout P) \<noteq> Some False \<and>
                       rt_x (el_runtime P) \<le> rt_x (el_runtime E) + rt_width (el_runtime E) / 2 \<and>
                       rt_x (el_runtime E) + rt_width (el_runtime E) / 2
                         \<le> rt_x (el_runtime P) + rt_width (el_runtime P) \<and>
                       rt_y (el_runtime P) \<le> rt_y (el_runtime E) + rt_height (el_runtime E) / 2 \<and>
                       rt_y (el_runtime E) + rt_height (el_runtime E) / 2
                         \<le> rt_y (el_runtime P) + rt_height (el_runtime P)) est \<and>
         (potentialParents est E = [] \<longrightarrow>
            rt_parentId (el_runtime (assignParent est E)) = None) \<and>
         (\<forall>pid. rt_parentId (el_runtime (assignParent est E)) = Some pid \<longrightarrow>
            (\<exists>P \<in> set (potentialParents est E).
               el_id P = pid \<and> lc_isContainer (el_layout P) \<noteq> Some False)) \<and>
         (distinct (map el_id elements) \<longrightarrow>
            (\<exists>outs. calculateRuntimePositions elements viewport = Inr (map Some outs) \<and>
               map (\<lambda>out. map_option rt_parentId (el_runtime out)) outs
                 = map (\<lambda>c. Some (rt_parentId (el_runtime (assignParent est c)))) est \<and>
               (\<forall>P \<in> set elements. lc_isContainer (el_layout P) = Some False \<longrightarrow>
                  (\<forall>out \<in> set outs. \<forall>r. el_runtime out = Some r \<longrightarrow>
                     rt_parentId r \<noteq> Some (el_id P)))))"
proof -
  have root: "rt_parentId (el_runtime E) = None"
    using assms estimated_member [of E elements viewport] by auto
  have empty: "rt_parentId (el_runtime (assignParent est E)) = None"
    if "potentialParents est E = []"
    using that root by (simp add: assignParent_parentId sortedParents_def sortBy_def)
  have chosen: "\<exists>P \<in> set (potentialParents est E).
      el_id P = pid \<and> lc_isContainer (el_layout P) \<noteq> Some False"
    if "rt_parentId (el_runtime (assignParent est E)) = Some pid" for pid
    using that assms assignParent_candidate [of E elements viewport pid] by simp
  from potentialParents_filter [of est E] empty chosen
    resolved_parentIds [of elements viewport] assms(1)
  show ?thesis by blast
qed

theorem containment_pass_witness:
  "estimate vpA elDot \<in> set (estimatedElements [elPanel, elDot] vpA) \<and>
   distinct (map el_id [elPanel, elDot]) \<and>
   lc_isContainer (el_layout elPanel) = Some False \<and>
   potentialParents (estimatedElements [elPanel, elDot] vpA) (estimate vpA elDot) = [] \<and>
   rt_parentId (el_runtime
     (assignParent (estimatedElements [elPanel, elDot] vpA) (estimate vpA elDot))) = None \<and>
   (\<exists>outs. calculateRuntimePositions [elPanel, elDot] vpA = Inr (map Some outs) \<and>
      map (\<lambda>out. map_option rt_parentId (el_runtime out)) outs = [Some None, Some None])"
proof -
  define est where "est = estimatedElements [elPanel, elDot] vpA"
  have est_list: "est = [estimate vpA elPanel, estimate vpA elDot]"
    by (simp add: est_def estimatedElements_def)
  have mem: "estimate vpA elDot \<in> set est"
    by (simp add: est_list)
  have dist: "distinct (map el_id [elPanel, elDot])"
    by (simp add: elPanel_def elDot_def pxElement_def)
  have panel: "lc_isContainer (el_layout elPanel) = Some False"
    by (simp add: elPanel_def pxElement_def)
  have none: "potentialParents est (estimate vpA elDot) = []"
    unfolding est_list
    by (simp add: pipeline_defs elPanel_def elDot_def pxElement_def vpA_def)
  have panel_none: "potentialParents est (estimate vpA elPanel) = []"
    unfolding est_list
    by (simp add: pipeline_defs elPanel_def elDot_def pxElement_def vpA_def)
  note inst = containment_pass [OF est_def mem]
  from inst none have dot: "rt_parentId (el_runtime (assignParent est (estimate vpA elDot))) = None"
    by blast
  have pn: "rt_parentId (el_runtime (assignParent est (estimate vpA elPanel))) = None"
    using panel_none by (simp add: assignParent_parentId sortedParents_def sortBy_def)
  let ?f = "\<lambda>c. Some (rt_parentId (el_runtime (assignParent est c)))"
  have "map ?f est = map ?f [estimate vpA elPanel, estimate vpA elDot]"
    by (rule arg_cong [OF est_list])
  then have ids: "map ?f est = [Some None, Some None]"
    using dot pn by simp
  from inst dist obtain outs
    where "calculateRuntimePositions [elPanel, elDot] vpA = Inr (map Some outs)"
      and "map (\<lambda>out. map_option rt_parentId (el_runtime out)) outs = map ?f est"
    by blast
  with ids have "\<exists>outs. calculateRuntimePositions [elPanel, elDot] vpA = Inr (map Some outs) \<and>
      map (\<lambda>out. map_option rt_parentId (el_runtime out)) outs = [Some None, Some None]"
    by auto
  with mem dist panel none dot show ?thesis
    unfolding est_def by blast
qed

section \<open>The order of the candidate parents\<close>

text \<open>
  Claim C4. The sorted candidate list is ordered by z-order descending (a missing z
  counting as 0) and, among equal z-orders, by area ascending; it is a permutation of
  the candidates in which candidates of equal z-order and area keep their input order;
  and its first element gives the parent id. In the tie-break scenario (a 500 by 500
  and a 300 by 300 container of equal z-order, both holding the child's center) the
  child's parent id is the 300 by 300 container, in either input order.
\<close>

theorem parent_order:
  "sorted_wrt (\<lambda>a b. zIndexOf b < zIndexOf a \<or> (zIndexOf b = zIndexOf a \<and> areaOf a \<le> areaOf b))
     (sortedParents est child) \<and>
   mset (sortedParents est child) = mset (potentialParents est child) \<and>
   filter (\<lambda>p. zIndexOf p = z \<and> areaOf p = ar) (sortedParents est child)
     = filter (\<lambda>p. zIndexOf p = z \<and> areaOf p = ar) (potentialParents est child) \<and>
   rt_parentId (el_runtime (assignParent est child))
     = (case sortedParents est child of
          [] \<Rightarrow> rt_parentId (el_runtime child)
        | p # _ \<Rightarrow> Some (el_id p)) \<and>
   zIndexOf (a\<lparr>el_layout := (el_layout a)\<lparr>lc_zIndex := None\<rparr>\<rparr>) = 0 \<and>
   zIndexOf (a\<lparr>el_layout := (el_layout a)\<lparr>lc_zIndex := Some zv\<rparr>\<rparr>) = zv \<and>
   calculateRuntimePositions [elBig, elSmall, elKid] vpA =
     Inr [Some (with_runtime elBig
                  (Some \<lparr>rt_x = 0, rt_y = 0, rt_width = 500, rt_height = 500,
                         rt_parentId = None\<rparr>)),
          Some (with_runtime elSmall
                  (Some \<lparr>rt_x = 260, rt_y = 260, rt_width = 300, rt_height = 300,
                         rt_parentId = Some (el_id elBig)\<rparr>)),
          Some (with_runtime elKid
                  (Some \<lparr>rt_x = 560, rt_y = 560, rt_width = 50, rt_height = 50,
                         rt_parentId = Some (el_id elSmall)\<rparr>))] \<and>
   calculateRuntimePositions [elSmall, elBig, elKid] vpA =
     Inr [Some (with_runtime elSmall
                  (Some \<lparr>rt_x = 260, rt_y = 260, rt_width = 300, rt_height = 300,
                         rt_parentId = Some (el_id elBig)\<rparr>)),
          Some (with_runtime elBig
                  (Some \<lparr>rt_x = 0, rt_y = 0, rt_width = 500, rt_height = 500,
                         rt_parentId = None\<rparr>)),
          Some (with_runtime elKid
                  (Some \<lparr>rt_x = 560, rt_y = 560, rt_width = 50, rt_height = 50,
                         rt_parentId = Some (el_id elSmall)\<rparr>))]"
proof -
  let ?c = "potentialParents est child"
  have eq: "sortedParents est child = sort_key parentKey ?c"
    by (simp add: sortedParents_def sortBy_sort_key)
  have "sorted (map parentKey (sort_key parentKey ?c))"
    by (rule sorted_sort_key)
  then have s: "sorted_wrt
      (\<lambda>a b. zIndexOf b < zIndexOf a \<or> (zIndexOf b = zIndexOf a \<and> areaOf a \<le> areaOf b))
      (sortedParents est child)"
    by (simp add: eq sorted_map parentKey_le)
  have "filter (\<lambda>p. parentKey p = (- z, ar)) (sort_key parentKey ?c)
      = filter (\<lambda>p. parentKey p = (- z, ar)) ?c"
    by (rule sort_key_stable)
  then have f: "filter (\<lambda>p. zIndexOf p = z \<and> areaOf p = ar) (sortedParents est child)
      = filter (\<lambda>p. zIndexOf p = z \<and> areaOf p = ar) ?c"
    by (simp add: eq parentKey_eq)
  have m: "mset (sortedParents est child) = mset ?c"
    by (simp add: eq)
  have big_first: "calculateRuntimePositions [elBig, elSmall, elKid] vpA =
     Inr [Some (with_runtime elBig
                  (Some \<lparr>rt_x = 0, rt_y = 0, rt_width = 500, rt_height = 500,
                         rt_parentId = None\<rparr>)),
          Some (with_runtime elSmall
                  (Some \<lparr>rt_x = 260, rt_y = 260, rt_width = 300, rt_height = 300,
                         rt_parentId = Some (el_id elBig)\<rparr>)),
          Some (with_runtime elKid
                  (Some \<lparr>rt_x = 560, rt_y = 560, rt_width = 50, rt_height = 50,
                         rt_parentId = Some (el_id elSmall)\<rparr>))]"
    by (simp add: evaluation_defs elBig_def elSmall_def elKid_def pxElement_def vpA_def)
  have small_first: "calculateRuntimePositions [elSmall, elBig, elKid] vpA =
     Inr [Some (with_runtime elSmall
                  (Some \<lparr>rt_x = 260, rt_y = 260, rt_width = 300, rt_height = 300,
                         rt_parentId = Some (el_id elBig)\<rparr>)),
          Some (with_runtime elBig
                  (Some \<lparr>rt_x = 0, rt_y = 0, rt_width = 500, rt_height = 500,
                         rt_parentId = None\<rparr>)),
          Some (with_runtime elKid
                  (Some \<lparr>rt_x = 560, rt_y = 560, rt_width = 50, rt_height = 50,
                         rt_parentId = Some (el_id elSmall)\<rparr>))]"
    by (simp add: evaluation_defs elBig_def elSmall_def elKid_def pxElement_def vpA_def)
  have z: "zIndexOf (a\<lparr>el_layout := (el_layout a)\<lparr>lc_zIndex := None\<rparr>\<rparr>) = 0"
    "zIndexOf (a\<lparr>el_layout := (el_layout a)\<lparr>lc_zIndex := Some zv\<rparr>\<rparr>) = zv"
    by (simp_all add: zIndexOf_def)
  from s m f z big_first small_first show ?thesis
    by (simp only: assignParent_parentId simp_thms)
qed

section \<open>Termination of the finalization\<close>

lemma withParents_estimate_rect:
  assumes "e \<in> set (withParents (estimatedElements elements viewport))"
  shows "rt_x (el_runtime e) = rt_x (placeIn (el_layout e) viewport (viewportRect viewport) None) \<and>
         rt_y (el_runtime e) = rt_y (placeIn (el_layout e) viewport (viewportRect viewport) None) \<and>
         rt_width (el_runtime e)
           = rt_width (placeIn (el_layout e) viewport (viewportRect viewport) None) \<and>
         rt_height (el_runtime e)
           = rt_height (placeIn (el_layout e) viewport (viewportRect viewport) None)"
proof -
  from withParents_member [OF assms] obtain c
    where c: "c \<in> set (estimatedElements elements viewport)"
      "e = assignParent (estimatedElements elements viewport) c"
    by blast
  from estimated_member [OF c(1)] obtain x where "x \<in> set elements" "c = estimate viewport x"
    by blast
  with c(2) show ?thesis
    by (simp add: estimate_def with_runtime_def)
qed

text \<open>
  Claim C5. The recursion of \<^verbatim>\<open>calculateElement\<close> is well-founded on every argument
  (\<open>calculateElement_dom\<close> is the accessible part of its call relation), whatever the
  parent ids are, cycles included. A call on an id that is on the stack and not in the
  map returns at once the element of \<^verbatim>\<open>withParents\<close> with that id and leaves the map
  as it was; in the pipeline that element carries its Pass-1 rectangle. The whole
  function returns an element for every input element.
\<close>

theorem calculateElement_terminates:
  "calculateElement_dom (wp, viewport, fm, i, stack) \<and>
   (fm i = None \<and> i \<in> set stack \<longrightarrow>
      calculateElement wp viewport fm i stack
        = Inr (map_option asLayoutElement (findById wp i), fm)) \<and>
   (fm i = None \<and> i \<in> set stack \<and> i \<in> el_id ` set elements \<and>
    wp = withParents (estimatedElements elements viewport) \<longrightarrow>
      (\<exists>el r. calculateElement wp viewport fm i stack = Inr (Some el, fm) \<and>
         el_id el = i \<and> el_runtime el = Some r \<and>
         rt_x r = rt_x (placeIn (el_layout el) viewport (viewportRect viewport) None) \<and>
         rt_y r = rt_y (placeIn (el_layout el) viewport (viewportRect viewport) None) \<and>
         rt_width r = rt_width (placeIn (el_layout el) viewport (viewportRect viewport) None) \<and>
         rt_height r
           = rt_height (placeIn (el_layout el) viewport (viewportRect viewport) None))) \<and>
   (\<exists>outs. calculateRuntimePositions elements viewport = Inr (map Some outs) \<and>
      length outs = length elements)"
proof -
  have dom: "calculateElement_dom (wp, viewport, fm, i, stack)"
  proof (induction "card (el_id ` set wp - set stack)" arbitrary: fm i stack rule: less_induct)
    case less
    show ?case
    proof (rule calculateElement.domintros)
      fix el pid
      assume notin: "i \<notin> set stack" and found: "findById wp i = Some el"
      from findById_Some [OF found] have "i \<in> el_id ` set wp"
        by auto
      with notin have "el_id ` set wp - set (stack @ [i]) \<subset> el_id ` set wp - set stack"
        by auto
      then have "card (el_id ` set wp - set (stack @ [i])) < card (el_id ` set wp - set stack)"
        by (intro psubset_card_mono) auto
      then show "calculateElement_dom (wp, viewport, fm, pid, stack @ [i])"
        by (rule less.hyps)
    qed
  qed
  have guard: "calculateElement wp viewport fm i stack
      = Inr (map_option asLayoutElement (findById wp i), fm)"
    if "fm i = None" "i \<in> set stack"
    using that by (subst calculateElement.simps) simp
  have pass1: "\<exists>el r. calculateElement wp viewport fm i stack = Inr (Some el, fm) \<and>
         el_id el = i \<and> el_runtime el = Some r \<and>
         rt_x r = rt_x (placeIn (el_layout el) viewport (viewportRect viewport) None) \<and>
         rt_y r = rt_y (placeIn (el_layout el) viewport (viewportRect viewport) None) \<and>
         rt_width r = rt_width (placeIn (el_layout el) viewport (viewportRect viewport) None) \<and>
         rt_height r = rt_height (placeIn (el_layout el) viewport (viewportRect viewport) None)"
    if h: "fm i = None" "i \<in> set stack" "i \<in> el_id ` set elements"
      "wp = withParents (estimatedElements elements viewport)"
  proof -
    from h(3,4) have "i \<in> el_id ` set wp"
      by (simp add: ids_withParents)
    then obtain e where e: "findById wp i = Some e"
      using findById_None [of wp i] by (cases "findById wp i") auto
    from findById_Some [OF e] h(4)
    have mem: "e \<in> set (withParents (estimatedElements elements viewport))" and id: "el_id e = i"
      by auto
    have "calculateElement wp viewport fm i stack = Inr (Some (asLayoutElement e), fm)"
      using guard [OF h(1,2)] e by simp
    moreover have "el_id (asLayoutElement e) = i" "el_layout (asLayoutElement e) = el_layout e"
      "el_runtime (asLayoutElement e) = Some (el_runtime e)"
      using id by (simp_all add: asLayoutElement_def with_runtime_def)
    ultimately show ?thesis
      using withParents_estimate_rect [OF mem] by auto
  qed
  from calculateRuntimePositions_result [of elements viewport]
  have "\<exists>outs. calculateRuntimePositions elements viewport = Inr (map Some outs) \<and>
      length outs = length elements"
    by blast
  with dom guard pass1 show ?thesis by blast
qed

theorem calculateElement_terminates_witness:
  "(Map.empty :: finalMap) ''P'' = None \<and> ''P'' \<in> set [''P'', ''Q''] \<and>
   ''P'' \<in> el_id ` set [elP, elQ] \<and>
   calculateElement_dom
     (withParents (estimatedElements [elP, elQ] vpA), vpA, (Map.empty :: finalMap), ''P'',
      [''P'', ''Q'']) \<and>
   calculateElement (withParents (estimatedElements [elP, elQ] vpA)) vpA Map.empty ''P''
       [''P'', ''Q'']
     = Inr (Some (with_runtime elP
                    (Some \<lparr>rt_x = 0, rt_y = 0, rt_width = 100, rt_height = 100,
                           rt_parentId = Some ''Q''\<rparr>)), Map.empty) \<and>
   calculateRuntimePositions [elP, elQ] vpA =
     Inr [Some (with_runtime elP
                  (Some \<lparr>rt_x = 10, rt_y = 10, rt_width = 100, rt_height = 100,
                         rt_parentId = Some ''Q''\<rparr>)),
          Some (with_runtime elQ
                  (Some \<lparr>rt_x = 10, rt_y = 10, rt_width = 100, rt_height = 100,
                         rt_parentId = Some ''P''\<rparr>))]"
proof -
  let ?wp = "withParents (estimatedElements [elP, elQ] vpA)"
  note inst = calculateElement_terminates
    [of ?wp vpA "Map.empty :: finalMap" "''P''" "[''P'', ''Q'']" "[elP, elQ]"]
  from inst have dom: "calculateElement_dom (?wp, vpA, (Map.empty :: finalMap), ''P'', [''P'', ''Q''])"
    by blast
  from inst have "calculateElement ?wp vpA Map.empty ''P'' [''P'', ''Q'']
      = Inr (map_option asLayoutElement (findById ?wp ''P''), Map.empty)"
    by simp
  then have guard: "calculateElement ?wp vpA Map.empty ''P'' [''P'', ''Q'']
      = Inr (Some (with_runtime elP
                    (Some \<lparr>rt_x = 0, rt_y = 0, rt_width = 100, rt_height = 100,
                           rt_parentId = Some ''Q''\<rparr>)), Map.empty)"
    by (simp add: pipeline_defs elP_def elQ_def pxElement_def vpA_def)
  have "calculateRuntimePositions [elP, elQ] vpA =
     Inr [Some (with_runtime elP
                  (Some \<lparr>rt_x = 10, rt_y = 10, rt_width = 100, rt_height = 100,
                         rt_parentId = Some ''Q''\<rparr>)),
          Some (with_runtime elQ
                  (Some \<lparr>rt_x = 10, rt_y = 10, rt_width = 100, rt_height = 100,
                         rt_parentId = Some ''P''\<rparr>))]"
    by (simp add: evaluation_defs elP_def elQ_def pxElement_def vpA_def)
  moreover have "(Map.empty :: finalMap) ''P'' = None" "''P'' \<in> set [''P'', ''Q'']"
    "''P'' \<in> el_id ` set [elP, elQ]"
    by (simp_all add: elP_def pxElement_def)
  ultimately show ?thesis using dom guard by blast
qed

section \<open>Frame, self-parenting and idempotence\<close>

text \<open>
  Claim C9. For an input with unique ids, the output has the length and order of the
  input, and each output element has the id, name, kind and layout of the input
  element at its position; every output element carries a \<^verbatim>\<open>_runtime\<close>.
\<close>

theorem output_preserves_elements:
  assumes "distinct (map el_id elements)"
  shows "\<exists>outs. calculateRuntimePositions elements viewport = Inr (map Some outs) \<and>
           length outs = length elements \<and>
           map el_id outs = map el_id elements \<and>
           map el_name outs = map el_name elements \<and>
           map el_type outs = map el_type elements \<and>
           map el_layout outs = map el_layout elements \<and>
           (\<forall>out \<in> set outs. el_runtime out \<noteq> None)"
proof -
  from resolved_distinct [OF assms, of viewport] obtain outs
    where res: "calculateRuntimePositions elements viewport = Inr (map Some outs)"
      and len: "length outs = length elements"
      and ag: "\<And>k. k < length elements \<Longrightarrow>
             agrees (outs ! k)
               (assignParent (estimatedElements elements viewport) (estimate viewport (elements ! k)))"
    by blast
  have f: "el_id (outs ! k) = el_id (elements ! k) \<and> el_name (outs ! k) = el_name (elements ! k) \<and>
      el_type (outs ! k) = el_type (elements ! k) \<and> el_layout (outs ! k) = el_layout (elements ! k) \<and>
      el_runtime (outs ! k) \<noteq> None" if "k < length elements" for k
    using agrees_fields [OF ag [OF that]] by auto
  have "map el_id outs = map el_id elements" "map el_name outs = map el_name elements"
    "map el_type outs = map el_type elements" "map el_layout outs = map el_layout elements"
    using len f by (auto intro!: nth_equalityI)
  moreover have "\<forall>out \<in> set outs. el_runtime out \<noteq> None"
    using len f by (auto simp: in_set_conv_nth)
  ultimately show ?thesis using res len by blast
qed

theorem output_preserves_elements_witness:
  "distinct (map el_id [elC, elD]) \<and>
   (\<exists>outs. calculateRuntimePositions [elC, elD] vpA = Inr (map Some outs) \<and>
      length outs = 2 \<and>
      map el_id outs = [''C'', ''D''] \<and>
      map el_name outs = [''Container'', ''Child''] \<and>
      map el_type outs = [ShapeRect, ShapeRect] \<and>
      map el_layout outs = [el_layout elC, el_layout elD] \<and>
      (\<forall>out \<in> set outs. el_runtime out \<noteq> None))"
proof -
  have d: "distinct (map el_id [elC, elD])"
    by (simp add: elC_def elD_def)
  have fields: "length [elC, elD] = 2" "map el_id [elC, elD] = [''C'', ''D'']"
    "map el_name [elC, elD] = [''Container'', ''Child'']"
    "map el_type [elC, elD] = [ShapeRect, ShapeRect]"
    "map el_layout [elC, elD] = [el_layout elC, el_layout elD]"
    by (simp_all add: elC_def elD_def)
  from output_preserves_elements [OF d, of vpA] have
    "\<exists>outs. calculateRuntimePositions [elC, elD] vpA = Inr (map Some outs) \<and>
      length outs = 2 \<and>
      map el_id outs = [''C'', ''D''] \<and>
      map el_name outs = [''Container'', ''Child''] \<and>
      map el_type outs = [ShapeRect, ShapeRect] \<and>
      map el_layout outs = [el_layout elC, el_layout elD] \<and>
      (\<forall>out \<in> set outs. el_runtime out \<noteq> None)"
    unfolding fields .
  with d show ?thesis by blast
qed

text \<open>
  Claim C10. For every input and viewport, every output element carries a
  \<^verbatim>\<open>_runtime\<close> whose parent id is not the element's own id.
\<close>

theorem no_self_parent:
  "\<exists>outs. calculateRuntimePositions elements viewport = Inr (map Some outs) \<and>
     length outs = length elements \<and>
     (\<forall>out \<in> set outs. \<exists>r. el_runtime out = Some r \<and> rt_parentId r \<noteq> Some (el_id out))"
proof -
  let ?wp = "withParents (estimatedElements elements viewport)"
  from calculateRuntimePositions_result [of elements viewport] obtain outs
    where res: "calculateRuntimePositions elements viewport = Inr (map Some outs)"
      and len: "length outs = length elements"
      and ag: "\<And>k. k < length elements \<Longrightarrow>
          \<exists>el. findById ?wp (el_id (elements ! k)) = Some el \<and> agrees (outs ! k) el"
    by blast
  have "\<exists>r. el_runtime out = Some r \<and> rt_parentId r \<noteq> Some (el_id out)"
    if "out \<in> set outs" for out
  proof -
    from that len obtain k where k: "k < length elements" "out = outs ! k"
      by (auto simp: in_set_conv_nth)
    from ag [OF k(1)] k(2) obtain el where el: "findById ?wp (el_id (elements ! k)) = Some el"
      "agrees out el"
      by blast
    from findById_Some [OF el(1)] have mem: "el \<in> set ?wp" by simp
    from agrees_fields [OF el(2)] obtain rr where rr: "el_runtime out = Some rr"
      "rt_parentId rr = rt_parentId (el_runtime el)" "el_id out = el_id el"
      by auto
    have "rt_parentId (el_runtime el) \<noteq> Some (el_id el)"
      using withParents_parent [OF mem] by blast
    with rr show ?thesis by simp
  qed
  with res len show ?thesis by blast
qed

theorem no_self_parent_witness:
  "\<exists>outs. calculateRuntimePositions [elP, elQ] vpA = Inr (map Some outs) \<and>
     length outs = length [elP, elQ] \<and>
     (\<forall>out \<in> set outs. \<exists>r. el_runtime out = Some r \<and> rt_parentId r \<noteq> Some (el_id out))"
  using no_self_parent [of "[elP, elQ]" vpA] .

text \<open>
  Claim C7. Feeding the output back with the same viewport yields the same
  \<^verbatim>\<open>_runtime\<close> (x, y, width, height, parent id) element for element, whenever the
  output's layouts are those of the input, which is the case for every input with
  unique ids; a \<^verbatim>\<open>_runtime\<close> that the input carries is ignored.
\<close>

theorem idempotent_runtime:
  "\<exists>outs. calculateRuntimePositions elements viewport = Inr (map Some outs) \<and>
     (map el_layout outs = map el_layout elements \<longrightarrow>
        (\<exists>outs'. calculateRuntimePositions outs viewport = Inr (map Some outs') \<and>
           map el_runtime outs' = map el_runtime outs)) \<and>
     (distinct (map el_id elements) \<longrightarrow>
        (\<exists>outs'. calculateRuntimePositions outs viewport = Inr (map Some outs') \<and>
           map el_runtime outs' = map el_runtime outs))"
proof -
  from calculateRuntimePositions_result [of elements viewport] obtain outs
    where res: "calculateRuntimePositions elements viewport = Inr (map Some outs)"
    by blast
  have "map el_layout outs = map el_layout elements" if "distinct (map el_id elements)"
  proof -
    from resolved_distinct [OF that, of viewport] res obtain outs'
      where "map Some outs' = map Some outs" and len: "length outs' = length elements"
        and ag: "\<And>k. k < length elements \<Longrightarrow>
             agrees (outs' ! k)
               (assignParent (estimatedElements elements viewport)
                  (estimate viewport (elements ! k)))"
      by auto
    then have eq: "outs' = outs" by simp
    have "el_layout (outs ! k) = el_layout (elements ! k)" if "k < length elements" for k
      using agrees_fields [OF ag [OF that]] eq by simp
    with len eq show ?thesis by (auto intro!: nth_equalityI)
  qed
  with idempotent_layouts [OF res] res show ?thesis by blast
qed

theorem idempotent_runtime_witness:
  "calculateRuntimePositions [elC, elD] vpA = Inr (map Some outsA) \<and>
   map el_layout outsA = map el_layout [elC, elD] \<and>
   distinct (map el_id [elC, elD]) \<and>
   (\<exists>outs'. calculateRuntimePositions outsA vpA = Inr (map Some outs') \<and>
      map el_runtime outs' = map el_runtime outsA)"
proof -
  have res: "calculateRuntimePositions [elC, elD] vpA = Inr (map Some outsA)"
    by (simp add: evaluation_defs outsA_def elC_def elD_def vpA_def)
  have lay: "map el_layout outsA = map el_layout [elC, elD]"
    by (simp add: outsA_def with_runtime_def)
  have d: "distinct (map el_id [elC, elD])"
    by (simp add: elC_def elD_def)
  from idempotent_runtime [of "[elC, elD]" vpA] obtain outs
    where outs: "calculateRuntimePositions [elC, elD] vpA = Inr (map Some outs)"
      and again: "map el_layout outs = map el_layout [elC, elD] \<longrightarrow>
        (\<exists>outs'. calculateRuntimePositions outs vpA = Inr (map Some outs') \<and>
           map el_runtime outs' = map el_runtime outs)"
    by blast
  from outs res have "outs = outsA" by simp
  with again lay res d show ?thesis by blast
qed

end
